theory Spec2Isabelle
  imports Complex_Main "HOL-Library.Word" "HOL-Library.Multiset"
begin

section \<open>Entropy scorer\<close>

text \<open>
  The content of a file opened with mode \<open>"rb"\<close> is a Python \<open>bytes\<close> object: a finite
  sequence of values in \<open>[0, 255]\<close>. Python's \<open>float\<close> is modelled by \<open>real\<close>: the
  arithmetic of \<open>calculate_entropy\<close> is taken exactly, rounding is not modelled.
  \<open>math.log(p, 2)\<close> is \<open>log 2 p\<close>, which HOL defines as \<open>ln p / ln 2\<close>.
\<close>

type_synonym byte = "8 word"

text \<open>\<open>data.count(x)\<close> for an integer \<open>x\<close>: the number of bytes of \<open>data\<close> whose value is \<open>x\<close>.\<close>

definition count_byte :: "byte list \<Rightarrow> nat \<Rightarrow> nat" where
  "count_byte data x = length (filter (\<lambda>b. unat b = x) data)"

text \<open>
  The body of \<open>for x in range(256)\<close>, with the accumulator \<open>entropy\<close> passed along; the
  second argument is what remains of the range.
\<close>

fun entropy_loop :: "byte list \<Rightarrow> nat list \<Rightarrow> real \<Rightarrow> real" where
  "entropy_loop data [] entropy = entropy"
| "entropy_loop data (x # xs) entropy =
     (let p_x = real (count_byte data x) / real (length data)
      in entropy_loop data xs
           (if p_x > 0 then entropy + - p_x * log 2 p_x else entropy))"

definition calculate_entropy :: "byte list \<Rightarrow> real" where
  "calculate_entropy data =
     (if data = [] then 0 else entropy_loop data [0..<256] 0)"

subsection \<open>The specification's entropy\<close>

text \<open>
  Written from the specification, not from the code: \<open>p(v)\<close> is the count of \<open>v\<close> in the
  data divided by the length of the data, and the entropy is the sum of
  \<open>- p(v) * log2 (p(v))\<close> over those \<open>v\<close> in \<open>[0, 255]\<close> with \<open>p(v) > 0\<close>.
\<close>

definition spec_p :: "byte list \<Rightarrow> nat \<Rightarrow> real" where
  "spec_p d v = real (count_list (map unat d) v) / real (length d)"

definition spec_shannon_entropy :: "byte list \<Rightarrow> real" where
  "spec_shannon_entropy d =
     (\<Sum>v \<in> {v \<in> {0..255}. spec_p d v > 0}. - spec_p d v * log 2 (spec_p d v))"

subsection \<open>The loop as a sum\<close>

text \<open>What one iteration of the loop adds to the accumulator.\<close>

definition entropy_term :: "byte list \<Rightarrow> nat \<Rightarrow> real" where
  "entropy_term data x =
     (let p_x = real (count_byte data x) / real (length data)
      in if p_x > 0 then - p_x * log 2 p_x else 0)"

section \<open>Tree scanner\<close>

text \<open>
  What \<open>open\<close>, \<open>read\<close> and \<open>os.scandir\<close> can raise, as far as the handlers of the scanner
  tell them apart: \<open>FileNotFoundError\<close>; \<open>OSError\<close>, which stands for every other
  \<open>OSError\<close> (\<open>IOError\<close> is the same class: \<open>PermissionError\<close>, \<open>IsADirectoryError\<close>, a
  failing device); and \<open>OtherException\<close>, any exception that is not an \<open>OSError\<close>
  (\<open>ValueError\<close> for a path with an embedded null byte, \<open>MemoryError\<close>), which no handler
  of the scanner catches.
\<close>

datatype py_exception = FileNotFoundError | OSError | OtherException

type_synonym path = string

text \<open>The calls to \<open>logging\<close>, in the order they are made.\<close>

datatype event =
    DebugEntropy path real
  | WarningExceeds path real real
  | ErrorFileNotFound path
  | ErrorReadingFile path
  | ErrorDirNotFound path
  | ErrorScanningDir path

text \<open>
  The file system as \<open>analyze_file\<close> sees it: opening a path and reading it in full either
  raises or gives the bytes.
\<close>

type_synonym file_reader = "path \<Rightarrow> py_exception + byte list"

definition analyze_file ::
  "file_reader \<Rightarrow> path \<Rightarrow> real \<Rightarrow> event list \<times> (py_exception + bool)" where
  "analyze_file fs filepath threshold =
     (case fs filepath of
        Inr data \<Rightarrow>
          (let entropy = calculate_entropy data
           in if entropy > threshold
              then ([DebugEntropy filepath entropy,
                     WarningExceeds filepath threshold entropy], Inr True)
              else ([DebugEntropy filepath entropy], Inr False))
      | Inl FileNotFoundError \<Rightarrow> ([ErrorFileNotFound filepath], Inr False)
      | Inl OSError \<Rightarrow> ([ErrorReadingFile filepath], Inr False)
      | Inl OtherException \<Rightarrow> ([], Inl OtherException))"

text \<open>
  A directory as \<open>os.scandir\<close> iterates it: the entries in the order they are yielded, each
  with its name and what \<open>is_file()\<close> and \<open>is_dir()\<close> say of it, ending normally
  (\<open>ScanEnd\<close>) or with an exception (\<open>ScanRaise\<close>), raised by \<open>os.scandir\<close> itself when
  no entry comes before it, and by the iteration or by \<open>is_file()\<close>/\<open>is_dir()\<close> otherwise.
  A subdirectory carries its own listing.
\<close>

datatype node = RegularFile | Directory scan | OtherEntry
and scan = ScanEnd | ScanRaise py_exception | ScanEntry string node scan

text \<open>\<open>entry.path\<close> is \<open>os.path.join(dirpath, entry.name)\<close>.\<close>

definition join_path :: "path \<Rightarrow> string \<Rightarrow> path" where
  "join_path dirpath name =
     (if name \<noteq> [] \<and> hd name = CHR ''/'' then name
      else if dirpath = [] \<or> last dirpath = CHR ''/'' then dirpath @ name
      else dirpath @ ''/'' @ name)"

text \<open>The events of a statement followed by the events and the outcome of what comes next.\<close>

definition then_scan ::
  "event list \<Rightarrow> event list \<times> py_exception option \<Rightarrow> event list \<times> py_exception option" where
  "then_scan ev r = (ev @ fst r, snd r)"

text \<open>The two \<open>except\<close> clauses of \<open>analyze_directory\<close>.\<close>

definition handle_scan_errors ::
  "path \<Rightarrow> event list \<times> py_exception option \<Rightarrow> event list \<times> py_exception option" where
  "handle_scan_errors dirpath r =
     (case snd r of
        None \<Rightarrow> (fst r, None)
      | Some FileNotFoundError \<Rightarrow> (fst r @ [ErrorDirNotFound dirpath], None)
      | Some OSError \<Rightarrow> (fst r @ [ErrorScanningDir dirpath], None)
      | Some OtherException \<Rightarrow> (fst r, Some OtherException))"

text \<open>
  \<open>analyze_directory\<close> is the \<open>try\<close> statement around the loop; \<open>scan_loop\<close> is the
  \<open>for\<close> loop, whose result is the events logged and the exception that left it, if any.
\<close>

fun analyze_directory ::
  "file_reader \<Rightarrow> path \<Rightarrow> real \<Rightarrow> bool \<Rightarrow> scan \<Rightarrow> event list \<times> py_exception option"
and scan_loop ::
  "file_reader \<Rightarrow> path \<Rightarrow> real \<Rightarrow> bool \<Rightarrow> scan \<Rightarrow> event list \<times> py_exception option" where
  "analyze_directory fs dirpath threshold recursive sc =
     handle_scan_errors dirpath (scan_loop fs dirpath threshold recursive sc)"
| "scan_loop fs dirpath threshold recursive ScanEnd = ([], None)"
| "scan_loop fs dirpath threshold recursive (ScanRaise e) = ([], Some e)"
| "scan_loop fs dirpath threshold recursive (ScanEntry name RegularFile rest) =
     (case analyze_file fs (join_path dirpath name) threshold of
        (ev, Inl e) \<Rightarrow> (ev, Some e)
      | (ev, Inr flagged) \<Rightarrow> then_scan ev (scan_loop fs dirpath threshold recursive rest))"
| "scan_loop fs dirpath threshold recursive (ScanEntry name (Directory sub) rest) =
     (if recursive
      then (case analyze_directory fs (join_path dirpath name) threshold recursive sub of
              (ev, Some e) \<Rightarrow> (ev, Some e)
            | (ev, None) \<Rightarrow> then_scan ev (scan_loop fs dirpath threshold recursive rest))
      else scan_loop fs dirpath threshold recursive rest)"
| "scan_loop fs dirpath threshold recursive (ScanEntry name OtherEntry rest) =
     scan_loop fs dirpath threshold recursive rest"

subsection \<open>Notions used to state the claims\<close>

text \<open>A listing without its subdirectory entries.\<close>

fun drop_dirs :: "scan \<Rightarrow> scan" where
  "drop_dirs ScanEnd = ScanEnd"
| "drop_dirs (ScanRaise e) = ScanRaise e"
| "drop_dirs (ScanEntry name (Directory sub) rest) = drop_dirs rest"
| "drop_dirs (ScanEntry name RegularFile rest) = ScanEntry name RegularFile (drop_dirs rest)"
| "drop_dirs (ScanEntry name OtherEntry rest) = ScanEntry name OtherEntry (drop_dirs rest)"

text \<open>The names of the immediate regular-file children of a listing.\<close>

fun regular_names :: "scan \<Rightarrow> string list" where
  "regular_names ScanEnd = []"
| "regular_names (ScanRaise e) = []"
| "regular_names (ScanEntry name RegularFile rest) = name # regular_names rest"
| "regular_names (ScanEntry name (Directory sub) rest) = regular_names rest"
| "regular_names (ScanEntry name OtherEntry rest) = regular_names rest"

text \<open>The path an event is about.\<close>

fun event_path :: "event \<Rightarrow> path" where
  "event_path (DebugEntropy p e) = p"
| "event_path (WarningExceeds p t e) = p"
| "event_path (ErrorFileNotFound p) = p"
| "event_path (ErrorReadingFile p) = p"
| "event_path (ErrorDirNotFound p) = p"
| "event_path (ErrorScanningDir p) = p"

section \<open>Facts about the entropy scorer\<close>

lemma entropy_loop_sum_list:
  "entropy_loop data xs acc = acc + sum_list (map (entropy_term data) xs)"
  by (induction xs arbitrary: acc) (simp_all add: entropy_term_def Let_def)

lemma calculate_entropy_sum:
  "data \<noteq> [] \<Longrightarrow> calculate_entropy data = (\<Sum>x = 0..<256. entropy_term data x)"
  by (simp add: calculate_entropy_def entropy_loop_sum_list interv_sum_list_conv_sum_set_nat)

lemma count_byte_count_list: "count_byte d v = count_list (map unat d) v"
  by (induction d) (simp_all add: count_byte_def)

lemma count_byte_le_length: "count_byte d v \<le> length d"
  by (simp add: count_byte_def)

lemma count_byte_mset: "mset d' = mset d \<Longrightarrow> count_byte d' v = count_byte d v"
proof -
  assume "mset d' = mset d"
  then have "mset (filter (\<lambda>b. unat b = v) d') = mset (filter (\<lambda>b. unat b = v) d)"
    by simp
  then have "length (filter (\<lambda>b. unat b = v) d') = length (filter (\<lambda>b. unat b = v) d)"
    by (rule mset_eq_length)
  then show ?thesis by (simp add: count_byte_def)
qed

lemma entropy_loop_mset:
  "mset d' = mset d \<Longrightarrow> entropy_loop d' xs acc = entropy_loop d xs acc"
proof (induction xs arbitrary: acc)
  case Nil
  show ?case by simp
next
  case (Cons x xs)
  from Cons.prems have len: "length d' = length d"
    by (rule mset_eq_length)
  from Cons.prems have cnt: "count_byte d' x = count_byte d x"
    by (rule count_byte_mset)
  show ?case by (simp add: len cnt Cons.IH [OF Cons.prems])
qed

lemma plogp_nonneg:
  fixes p :: real
  assumes "0 < p" "p \<le> 1"
  shows "0 \<le> - p * log 2 p"
proof -
  from assms have "log 2 p \<le> 0" by (simp add: log_le_zero_cancel_iff)
  with assms(1) have "p * log 2 p \<le> 0"
    by (simp add: mult_nonneg_nonpos)
  then show ?thesis by simp
qed

lemma ln_256: "ln (256::real) = 8 * ln 2"
proof -
  have "ln ((2::real) ^ 8) = real 8 * ln 2" by (rule ln_realpow)
  moreover have "(2::real) ^ 8 = 256" by simp
  ultimately show ?thesis by (simp only: of_nat_numeral)
qed

lemma plogp_upper:
  fixes p :: real
  assumes pos: "0 < p"
  shows "- p * log 2 p \<le> 8 * p + (1 / 256 - p) / ln 2"
proof -
  have ln2: "0 < ln (2::real)" by simp
  define x where "x = 1 / (256 * p)"
  from pos have xpos: "0 < x" by (simp add: x_def)
  have px: "p * x = 1 / 256" using pos by (simp add: x_def)
  have "ln x \<le> x - 1"
    using xpos by (rule ln_le_minus_one)
  moreover have "ln x = - ln 256 - ln p"
    unfolding x_def using pos by (simp add: ln_div ln_mult)
  ultimately have "- ln p \<le> 8 * ln 2 + (x - 1)"
    by (simp add: ln_256)
  with pos have "p * (- ln p) \<le> p * (8 * ln 2 + (x - 1))"
    by (rule_tac mult_left_mono) simp_all
  also have "\<dots> = 8 * p * ln 2 + (p * x - p)"
    by (simp add: algebra_simps)
  finally have "p * (- ln p) \<le> 8 * p * ln 2 + (1 / 256 - p)"
    by (simp only: px)
  then have "p * (- ln p) / ln 2 \<le> (8 * p * ln 2 + (1 / 256 - p)) / ln 2"
    using ln2 by (rule_tac divide_right_mono) simp_all
  also have "\<dots> = 8 * p + (1 / 256 - p) / ln 2"
    using ln2 by (simp add: add_divide_distrib)
  finally show ?thesis
    by (simp add: log_def)
qed

lemma count_byte_Cons:
  "count_byte (b # d) x = (if unat b = x then 1 else 0) + count_byte d x"
  by (simp add: count_byte_def)

lemma sum_indicator_byte: "(\<Sum>x = 0..<256. if unat (b::byte) = x then 1 else 0::nat) = 1"
proof -
  have "unat b < 2 ^ LENGTH(8)" by (rule unsigned_less)
  then have "unat b \<in> {0..<256}" by simp
  then show ?thesis by (simp only: sum.delta' finite_atLeastLessThan if_True)
qed

lemma sum_count_byte: "(\<Sum>x = 0..<256. count_byte d x) = length d"
proof (induction d)
  case Nil
  show ?case by (simp add: count_byte_def)
next
  case (Cons b d)
  have "(\<Sum>x = 0..<256. count_byte (b # d) x)
        = (\<Sum>x = 0..<256. if unat b = x then 1 else 0) + (\<Sum>x = 0..<256. count_byte d x)"
    by (simp only: count_byte_Cons sum.distrib)
  then show ?case
    by (simp only: sum_indicator_byte Cons.IH) simp
qed

lemma sum_p_one:
  assumes "d \<noteq> []"
  shows "(\<Sum>x = 0..<256. real (count_byte d x) / real (length d)) = 1"
proof -
  have "(\<Sum>x = 0..<256. real (count_byte d x) / real (length d))
        = real (\<Sum>x = 0..<256. count_byte d x) / real (length d)"
    by (simp only: sum_divide_distrib of_nat_sum)
  with assms show ?thesis by (simp add: sum_count_byte)
qed

lemma entropy_term_nonneg: "0 \<le> entropy_term d x"
proof (cases "count_byte d x = 0")
  case True
  then show ?thesis by (simp add: entropy_term_def)
next
  case False
  define p where "p = real (count_byte d x) / real (length d)"
  from False have c: "0 < count_byte d x" by simp
  with count_byte_le_length [of d x] have l: "0 < length d" by linarith
  from c l have pos: "0 < p" by (simp add: p_def)
  from l count_byte_le_length [of d x] have le1: "p \<le> 1" by (simp add: p_def)
  have "entropy_term d x = - p * log 2 p"
    using pos by (simp add: entropy_term_def Let_def p_def)
  with plogp_nonneg [OF pos le1] show ?thesis by simp
qed

lemma entropy_term_upper:
  assumes "d \<noteq> []"
  shows "entropy_term d x
         \<le> 8 * (real (count_byte d x) / real (length d))
           + (1 / 256 - real (count_byte d x) / real (length d)) / ln 2"
proof (cases "count_byte d x = 0")
  case True
  have "0 < ln (2::real)" by simp
  then have "0 \<le> (1 / 256) / ln (2::real)" by simp
  with True show ?thesis by (simp add: entropy_term_def)
next
  case False
  define p where "p = real (count_byte d x) / real (length d)"
  from assms have l: "0 < length d" by simp
  from False l have pos: "0 < p" by (simp add: p_def)
  have "entropy_term d x = - p * log 2 p"
    using pos by (simp add: entropy_term_def Let_def p_def)
  with plogp_upper [OF pos] show ?thesis by (simp only: p_def)
qed

lemma count_byte_constant:
  "\<forall>b \<in> set d. b = c \<Longrightarrow> count_byte d x = (if x = unat c then length d else 0)"
  by (induction d) (auto simp: count_byte_def)

lemma entropy_term_constant:
  assumes ne: "d \<noteq> []" and all: "\<forall>b \<in> set d. b = c"
  shows "entropy_term d x = 0"
proof (cases "x = unat c")
  case True
  with all have "count_byte d x = length d" by (simp add: count_byte_constant)
  with ne show ?thesis by (simp add: entropy_term_def)
next
  case False
  with all have "count_byte d x = 0" by (simp add: count_byte_constant)
  then show ?thesis by (simp add: entropy_term_def)
qed

lemma calculate_entropy_constant:
  assumes ne: "d \<noteq> []" and all: "\<forall>b \<in> set d. b = c"
  shows "calculate_entropy d = 0"
proof -
  have "(\<Sum>x = 0..<256. entropy_term d x) = (\<Sum>x = 0..<256::nat. 0)"
    by (rule sum.cong) (simp_all only: entropy_term_constant [OF ne all])
  then show ?thesis by (simp only: calculate_entropy_sum [OF ne] sum.neutral_const)
qed

lemma calculate_entropy_singleton: "calculate_entropy [c] = 0"
  by (rule calculate_entropy_constant [where c = c]) simp_all

section \<open>Claims about the entropy scorer\<close>

text \<open>
  C1: for every byte sequence of positive length, \<open>calculate_entropy\<close> returns the Shannon
  entropy of the distribution of its byte values: the sum of \<open>- p(v) * log2 (p(v))\<close> over
  exactly the values \<open>v\<close> in \<open>[0, 255]\<close> with \<open>p(v) > 0\<close>, where \<open>p(v)\<close> is the count of \<open>v\<close>
  divided by the length.
\<close>

theorem calculate_entropy_is_shannon:
  assumes "d \<noteq> []"
  shows "calculate_entropy d = spec_shannon_entropy d"
proof -
  have p: "spec_p d v = real (count_byte d v) / real (length d)" for v
    by (simp add: spec_p_def count_byte_count_list)
  have dom: "{v \<in> {0..255::nat}. spec_p d v > 0} = {v \<in> {0..<256}. spec_p d v > 0}"
    by auto
  have "(\<Sum>x = 0..<256. entropy_term d x)
        = (\<Sum>x \<in> {v \<in> {0..<256}. spec_p d v > 0}. entropy_term d x)"
    by (rule sum.mono_neutral_right) (auto simp: entropy_term_def p Let_def)
  also have "\<dots> = (\<Sum>x \<in> {v \<in> {0..<256}. spec_p d v > 0}. - spec_p d x * log 2 (spec_p d x))"
    by (rule sum.cong) (auto simp: entropy_term_def p Let_def)
  finally have "(\<Sum>x = 0..<256. entropy_term d x) = spec_shannon_entropy d"
    unfolding spec_shannon_entropy_def dom .
  with assms show ?thesis
    by (simp add: calculate_entropy_sum)
qed

theorem calculate_entropy_is_shannon_witness:
  "[0x41 :: byte] \<noteq> [] \<and> calculate_entropy [0x41] = spec_shannon_entropy [0x41]"
  using calculate_entropy_is_shannon [of "[0x41]"] by simp

text \<open>
  C4: for every byte sequence, of any length and distribution, the empty one included,
  \<open>calculate_entropy\<close> lies in the closed interval from 0 to 8.
\<close>

theorem calculate_entropy_bounds: "0 \<le> calculate_entropy d \<and> calculate_entropy d \<le> 8"
proof (cases "d = []")
  case True
  then show ?thesis by (simp add: calculate_entropy_def)
next
  case False
  define p where "p = (\<lambda>x. real (count_byte d x) / real (length d))"
  have one: "(\<Sum>x = 0..<256. p x) = 1"
    unfolding p_def by (rule sum_p_one [OF False])
  have lower: "0 \<le> (\<Sum>x = 0..<256. entropy_term d x)"
    by (rule sum_nonneg) (rule entropy_term_nonneg)
  have "(\<Sum>x = 0..<256. entropy_term d x)
        \<le> (\<Sum>x = 0..<256. 8 * p x + (1 / 256 - p x) / ln 2)"
    unfolding p_def by (rule sum_mono) (rule entropy_term_upper [OF False])
  also have "\<dots> = 8 * (\<Sum>x = 0..<256. p x)
                   + ((\<Sum>x = 0..<256::nat. 1 / 256) - (\<Sum>x = 0..<256. p x)) / ln 2"
    by (simp only: sum.distrib sum_distrib_left [symmetric] sum_divide_distrib [symmetric]
                   sum_subtractf)
  also have "\<dots> = 8"
    by (simp only: one) simp
  finally have upper: "(\<Sum>x = 0..<256. entropy_term d x) \<le> 8" .
  from lower upper show ?thesis
    by (simp only: calculate_entropy_sum [OF False] simp_thms)
qed

text \<open>
  C5: for the empty byte sequence \<open>calculate_entropy\<close> returns exactly 0; the function is
  total, so this is a value and not an error.
\<close>

theorem calculate_entropy_empty: "calculate_entropy [] = 0"
  by (simp add: calculate_entropy_def)

text \<open>
  C6: for every byte sequence of positive length all of whose bytes are one single value,
  \<open>calculate_entropy\<close> returns exactly 0.
\<close>

theorem calculate_entropy_single_value:
  assumes "d \<noteq> []" and "\<forall>b \<in> set d. b = c"
  shows "calculate_entropy d = 0"
  using assms by (rule calculate_entropy_constant)

theorem calculate_entropy_single_value_witness:
  "replicate 100 (0x41 :: byte) \<noteq> []
   \<and> calculate_entropy (replicate 100 (0x41 :: byte)) = 0"
  using calculate_entropy_single_value [of "replicate 100 (0x41 :: byte)" "0x41"] by simp

text \<open>
  C7: for every byte sequence and every permutation of it (the same multiset of byte values
  in any order), \<open>calculate_entropy\<close> returns the same score.
\<close>

theorem calculate_entropy_permutation:
  assumes "mset d' = mset d"
  shows "calculate_entropy d' = calculate_entropy d"
proof -
  from assms have "length d' = length d" by (rule mset_eq_length)
  then have "d' = [] \<longleftrightarrow> d = []" by auto
  then show ?thesis
    by (simp add: calculate_entropy_def entropy_loop_mset [OF assms])
qed

theorem calculate_entropy_permutation_witness:
  "mset [3, 1, 2 :: byte] = mset [1, 2, 3]
   \<and> calculate_entropy [3, 1, 2] = calculate_entropy [1, 2, 3]"
proof -
  have m: "mset [3, 1, 2 :: byte] = mset [1, 2, 3]" by (simp add: add_mset_commute)
  from m calculate_entropy_permutation [OF m] show ?thesis by simp
qed

section \<open>Facts about the tree scanner\<close>

lemma analyze_file_paths:
  "analyze_file fs p t = (ev, r) \<Longrightarrow> e \<in> set ev \<Longrightarrow> event_path e = p"
  by (auto simp: analyze_file_def Let_def split: sum.splits py_exception.splits if_splits)

lemma scan_loop_drop_dirs:
  "scan_loop fs d t False (drop_dirs sc) = scan_loop fs d t False sc"
  by (induction sc rule: drop_dirs.induct) (simp_all split: prod.splits sum.splits)

lemma scan_loop_paths:
  "e \<in> set (fst (scan_loop fs d t False sc)) \<Longrightarrow>
     event_path e \<in> join_path d ` set (regular_names sc)"
proof (induction sc rule: regular_names.induct)
  case (3 name rest)
  then show ?case
    by (auto simp: then_scan_def split: prod.splits sum.splits dest: analyze_file_paths)
qed simp_all

lemma analyze_file_low_entropy:
  "analyze_file (\<lambda>p. Inr [c]) p (- 1) = ([DebugEntropy p 0, WarningExceeds p (- 1) 0], Inr True)"
  by (simp add: analyze_file_def calculate_entropy_singleton)

section \<open>Claims about the tree scanner\<close>

text \<open>
  C2: for every file whose bytes can be read, \<open>analyze_file\<close> returns true if and only if
  the entropy of its content is strictly greater than the threshold; in particular a file
  whose entropy equals the threshold is not flagged.
\<close>

theorem analyze_file_flags_iff_above:
  assumes "fs filepath = Inr data"
  shows "snd (analyze_file fs filepath threshold) = Inr (calculate_entropy data > threshold)
       \<and> (calculate_entropy data = threshold \<longrightarrow>
            snd (analyze_file fs filepath threshold) = Inr False)"
  using assms by (simp add: analyze_file_def Let_def)

theorem analyze_file_flags_iff_above_witness:
  "(\<lambda>p. Inr [0x41 :: byte]) ''a.txt'' = (Inr [0x41] :: py_exception + byte list)
   \<and> snd (analyze_file (\<lambda>p. Inr [0x41]) ''a.txt'' 0) = Inr False
   \<and> snd (analyze_file (\<lambda>p. Inr [0x41]) ''a.txt'' (- 1)) = Inr True"
  using analyze_file_flags_iff_above [of "\<lambda>p. Inr [0x41]" "''a.txt''" "[0x41]" 0]
        analyze_file_flags_iff_above [of "\<lambda>p. Inr [0x41]" "''a.txt''" "[0x41]" "- 1"]
  by (simp add: calculate_entropy_singleton)

text \<open>
  C3: for every path on which opening or reading fails with \<open>FileNotFoundError\<close> (the path
  does not exist) or with any other \<open>OSError\<close> (permission error, I/O error, a directory
  or another special file), \<open>analyze_file\<close> raises nothing: it logs the failure, and only
  the failure, and returns false.
\<close>

theorem analyze_file_read_failure:
  "(fs filepath = Inl FileNotFoundError \<longrightarrow>
      analyze_file fs filepath threshold = ([ErrorFileNotFound filepath], Inr False))
   \<and> (fs filepath = Inl OSError \<longrightarrow>
      analyze_file fs filepath threshold = ([ErrorReadingFile filepath], Inr False))"
  by (simp add: analyze_file_def)

theorem analyze_file_read_failure_witness:
  "analyze_file (\<lambda>p. if p = ''missing'' then Inl FileNotFoundError else Inl OSError)
       ''missing'' 4.5
     = ([ErrorFileNotFound ''missing''], Inr False)
   \<and> analyze_file (\<lambda>p. if p = ''missing'' then Inl FileNotFoundError else Inl OSError)
       ''locked'' 4.5
     = ([ErrorReadingFile ''locked''], Inr False)"
  using analyze_file_read_failure
          [of "\<lambda>p. if p = ''missing'' then Inl FileNotFoundError else Inl OSError"
              "''missing''" "4.5"]
        analyze_file_read_failure
          [of "\<lambda>p. if p = ''missing'' then Inl FileNotFoundError else Inl OSError"
              "''locked''" "4.5"]
  by simp

text \<open>
  C8: with the recursive flag false, \<open>analyze_directory\<close> processes only the immediate
  regular-file children of the directory. Every subdirectory entry is skipped entirely:
  what is logged and what is raised are the same as for the listing with its subdirectory
  entries removed, whatever the subdirectories contain, and every event logged is about
  the directory itself or about one of its immediate regular-file children.
\<close>

theorem analyze_directory_non_recursive:
  "analyze_directory fs d t False sc = analyze_directory fs d t False (drop_dirs sc)
   \<and> (\<forall>e \<in> set (fst (analyze_directory fs d t False sc)).
         event_path e = d \<or> event_path e \<in> join_path d ` set (regular_names sc))"
proof
  show "analyze_directory fs d t False sc = analyze_directory fs d t False (drop_dirs sc)"
    by (simp add: scan_loop_drop_dirs)
next
  show "\<forall>e \<in> set (fst (analyze_directory fs d t False sc)).
          event_path e = d \<or> event_path e \<in> join_path d ` set (regular_names sc)"
    by (auto simp: handle_scan_errors_def split: option.splits py_exception.splits
             dest: scan_loop_paths)
qed

theorem analyze_directory_non_recursive_witness:
  "analyze_directory (\<lambda>p. Inr [0x41]) ''/d'' (- 1) False
     (ScanEntry ''sub'' (Directory (ScanEntry ''hi.bin'' RegularFile ScanEnd))
       (ScanEntry ''a.txt'' RegularFile ScanEnd))
   = ([DebugEntropy ''/d/a.txt'' 0, WarningExceeds ''/d/a.txt'' (- 1) 0], None)"
  using analyze_directory_non_recursive
          [of "\<lambda>p. Inr [0x41]" "''/d''" "- 1"
              "ScanEntry ''sub'' (Directory (ScanEntry ''hi.bin'' RegularFile ScanEnd))
                 (ScanEntry ''a.txt'' RegularFile ScanEnd)"]
  by (simp add: analyze_file_low_entropy join_path_def then_scan_def handle_scan_errors_def)

text \<open>
  C9: a directory whose listing fails with \<open>FileNotFoundError\<close> or another \<open>OSError\<close>
  makes \<open>analyze_directory\<close> log the failure and return without raising. In a recursive
  scan, a subdirectory whose listing fails so adds its one error event and nothing else:
  the entries after it are traversed as if it were absent, and the scan of the parent
  returns to its own caller as it would without it. At every level, whatever the listing,
  no \<open>FileNotFoundError\<close> and no other \<open>OSError\<close> leaves \<open>analyze_directory\<close>.
\<close>

theorem analyze_directory_listing_failure:
  "analyze_directory fs d t r (ScanRaise FileNotFoundError) = ([ErrorDirNotFound d], None)
   \<and> analyze_directory fs d t r (ScanRaise OSError) = ([ErrorScanningDir d], None)
   \<and> analyze_directory fs d t True (ScanEntry name (Directory (ScanRaise FileNotFoundError)) rest)
       = then_scan [ErrorDirNotFound (join_path d name)] (analyze_directory fs d t True rest)
   \<and> analyze_directory fs d t True (ScanEntry name (Directory (ScanRaise OSError)) rest)
       = then_scan [ErrorScanningDir (join_path d name)] (analyze_directory fs d t True rest)
   \<and> snd (analyze_directory fs d t r sc) \<noteq> Some FileNotFoundError
   \<and> snd (analyze_directory fs d t r sc) \<noteq> Some OSError"
  by (simp add: handle_scan_errors_def then_scan_def split: option.splits py_exception.splits)

theorem analyze_directory_listing_failure_witness:
  "analyze_directory (\<lambda>p. Inr [0x41]) ''/d'' (- 1) True
     (ScanEntry ''sub'' (Directory (ScanRaise OSError))
       (ScanEntry ''a.txt'' RegularFile ScanEnd))
   = ([ErrorScanningDir ''/d/sub'', DebugEntropy ''/d/a.txt'' 0,
       WarningExceeds ''/d/a.txt'' (- 1) 0], None)"
  using analyze_directory_listing_failure
          [of "\<lambda>p. Inr [0x41]" "''/d''" "- 1" True "''sub''"
              "ScanEntry ''a.txt'' RegularFile ScanEnd" ScanEnd]
  by (simp add: analyze_file_low_entropy join_path_def then_scan_def handle_scan_errors_def)

text \<open>
  C10: flagging is antitone in the threshold: for a readable file and thresholds
  \<open>t1 \<le> t2\<close>, a file flagged at \<open>t2\<close> is flagged at \<open>t1\<close>.
\<close>

theorem analyze_file_antitone:
  assumes "fs filepath = Inr data" and "t1 \<le> t2"
    and "snd (analyze_file fs filepath t2) = Inr True"
  shows "snd (analyze_file fs filepath t1) = Inr True"
  using assms by (simp add: analyze_file_def Let_def split: if_splits)

theorem analyze_file_antitone_witness:
  "(\<lambda>p. Inr [0x41 :: byte]) ''a.txt'' = (Inr [0x41] :: py_exception + byte list)
   \<and> (- 2 :: real) \<le> - 1
   \<and> snd (analyze_file (\<lambda>p. Inr [0x41]) ''a.txt'' (- 1)) = Inr True
   \<and> snd (analyze_file (\<lambda>p. Inr [0x41]) ''a.txt'' (- 2)) = Inr True"
proof -
  have f: "snd (analyze_file (\<lambda>p. Inr [0x41]) ''a.txt'' (- 1)) = Inr True"
    by (simp add: analyze_file_def calculate_entropy_singleton)
  from f analyze_file_antitone [of "\<lambda>p. Inr [0x41]" "''a.txt''" "[0x41]" "- 2" "- 1"]
  show ?thesis by simp
qed

end
